theory Spec2Isabelle
  imports Main "HOL-Library.Sublist"
begin

section \<open>Dashboard list views: pagination, sorting, URL state, debounced search\<close>

text \<open>
  A shallow embedding of the list-view logic of the dashboard: the page-number window of
  the pagination controls, the sort cycle, the URL query-string state of the users table,
  the debounced search hook, the node list's local search, and the relative-time texts.
  JavaScript numbers that hold page indices, counts and ids are modelled as \<open>int\<close>,
  strings as \<open>string\<close>, and \<open>undefined\<close> as \<open>None\<close>.
\<close>

subsection \<open>Pagination window (\<open>getPaginationRange\<close>)\<close>

text \<open>
  The two \<open>for\<close> loops of \<open>getPaginationRange\<close>: \<open>for (i = 0; i < totalPages; i++)\<close>
  and \<open>for (i = start; i <= end; i++)\<close>, each pushing \<open>i\<close> onto the range.
\<close>

function pushBelow :: "int \<Rightarrow> int \<Rightarrow> int list \<Rightarrow> int list" where
  "pushBelow i n rng = (if i < n then pushBelow (i + 1) n (rng @ [i]) else rng)"
  by pat_completeness auto
termination
  by (relation "measure (\<lambda>(i, n, rng). nat (n - i))") auto

function pushThrough :: "int \<Rightarrow> int \<Rightarrow> int list \<Rightarrow> int list" where
  "pushThrough i e rng = (if i \<le> e then pushThrough (i + 1) e (rng @ [i]) else rng)"
  by pat_completeness auto
termination
  by (relation "measure (\<lambda>(i, e, rng). nat (e + 1 - i))") auto

definition getPaginationRange :: "int \<Rightarrow> int \<Rightarrow> int list" where
  "getPaginationRange currentPage totalPages =
     (let delta = 2; rng = [] in
      if totalPages \<le> 5 then pushBelow 0 totalPages rng
      else
        let rng = rng @ [0];
            start = max 1 (currentPage - delta);
            endp = min (totalPages - 2) (currentPage + delta);
            endp = (if currentPage - delta \<le> 1 then min (totalPages - 2) (start + 2 * delta) else endp);
            start = (if currentPage + delta \<ge> totalPages - 2 then max 1 (totalPages - 3 - 2 * delta) else start);
            rng = (if start > 1 then rng @ [-1] else rng);
            rng = pushThrough start endp rng;
            rng = (if endp < totalPages - 2 then rng @ [-1] else rng);
            rng = (if totalPages > 1 then rng @ [totalPages - 1] else rng)
        in rng)"

subsection \<open>JavaScript primitives used by the views\<close>

text \<open>
  A JavaScript number that is an integer or \<open>NaN\<close>. \<open>Math.max\<close> and the subtraction
  return \<open>NaN\<close> as soon as one argument is \<open>NaN\<close>. A comparison with \<open>NaN\<close> is false and
  \<open>isNaN\<close> holds of \<open>NaN\<close> alone; both are written as a \<open>case\<close> on the number where they
  occur.
\<close>

datatype jsnum = Num int | NaN

fun jsMax :: "jsnum \<Rightarrow> jsnum \<Rightarrow> jsnum" where
  "jsMax (Num a) (Num b) = Num (max a b)"
| "jsMax _ _ = NaN"

fun jsMinus :: "jsnum \<Rightarrow> jsnum \<Rightarrow> jsnum" where
  "jsMinus (Num a) (Num b) = Num (a - b)"
| "jsMinus _ _ = NaN"

text \<open>Decimal digits, \<open>Number.prototype.toString\<close> on integers and \<open>parseInt(s, 10)\<close>.\<close>

definition digitChar :: "nat \<Rightarrow> char" where
  "digitChar d = ''0123456789'' ! d"

definition isDigit :: "char \<Rightarrow> bool" where
  "isDigit c = (c \<in> set ''0123456789'')"

definition digitVal :: "char \<Rightarrow> nat" where
  "digitVal c = of_char c - 48"

fun natToString :: "nat \<Rightarrow> string" where
  "natToString n = (if n < 10 then [digitChar n] else natToString (n div 10) @ [digitChar (n mod 10)])"

definition intToString :: "int \<Rightarrow> string" where
  "intToString i = (if i < 0 then CHR ''-'' # natToString (nat (- i)) else natToString (nat i))"

definition digitsToNat :: "string \<Rightarrow> nat" where
  "digitsToNat ds = foldl (\<lambda>acc c. 10 * acc + digitVal c) 0 ds"

definition isWhiteSpace :: "char \<Rightarrow> bool" where
  "isWhiteSpace c = (c \<in> {CHR '' '', CHR 0x09, CHR 0x0A, CHR 0x0B, CHR 0x0C, CHR 0x0D})"

text \<open>
  \<open>parseInt(s, 10)\<close>: leading white space is skipped, one sign is read, then the longest
  run of decimal digits; without a digit the result is \<open>NaN\<close>.
\<close>

definition parseInt :: "string \<Rightarrow> jsnum" where
  "parseInt str =
     (let s1 = dropWhile isWhiteSpace str;
          (sign, s2) = (case s1 of
                          c # rest \<Rightarrow> if c = CHR ''-'' then (-1, rest)
                                      else if c = CHR ''+'' then (1, rest) else (1, s1)
                        | [] \<Rightarrow> (1::int, s1));
          ds = takeWhile isDigit s2
      in if ds = [] then NaN else Num (sign * int (digitsToNat ds)))"

text \<open>
  \<open>x || undefined\<close> on an optional string: the empty string is falsy. \<open>xs.length > 0 ? xs
  : undefined\<close> on a list.
\<close>

fun orUndefined :: "string option \<Rightarrow> string option" where
  "orUndefined None = None"
| "orUndefined (Some v) = (if v = [] then None else Some v)"

definition truthy :: "string option \<Rightarrow> bool" where
  "truthy v = (orUndefined v \<noteq> None)"

definition nonEmptyOrUndefined :: "'a list \<Rightarrow> 'a list option" where
  "nonEmptyOrUndefined xs = (if length xs > 0 then Some xs else None)"

text \<open>
  \<open>URLSearchParams\<close> as the ordered list of its name/value pairs: \<open>get\<close> reads the first
  value of a name, \<open>getAll\<close> all of them, \<open>set\<close> overwrites the first pair of the name and
  drops its other pairs (or appends when the name is new), \<open>append\<close> adds a pair at the end.
\<close>

type_synonym URLSearchParams = "(string \<times> string) list"

definition usp_get :: "string \<Rightarrow> URLSearchParams \<Rightarrow> string option" where
  "usp_get name ps = map_of ps name"

definition usp_getAll :: "string \<Rightarrow> URLSearchParams \<Rightarrow> string list" where
  "usp_getAll name ps = map snd (filter (\<lambda>p. fst p = name) ps)"

fun usp_set :: "string \<Rightarrow> string \<Rightarrow> URLSearchParams \<Rightarrow> URLSearchParams" where
  "usp_set name v [] = [(name, v)]"
| "usp_set name v (p # ps) =
     (if fst p = name then (name, v) # filter (\<lambda>q. fst q \<noteq> name) ps
      else p # usp_set name v ps)"

definition usp_append :: "string \<Rightarrow> string \<Rightarrow> URLSearchParams \<Rightarrow> URLSearchParams" where
  "usp_append name v ps = ps @ [(name, v)]"

subsection \<open>Users table: filter state, URL parameters, sorting\<close>

datatype UserStatus = active | disabled | limited | expired | on_hold

fun statusString :: "UserStatus \<Rightarrow> string" where
  "statusString active = ''active''"
| "statusString disabled = ''disabled''"
| "statusString limited = ''limited''"
| "statusString expired = ''expired''"
| "statusString on_hold = ''on_hold''"

definition validStatuses :: "UserStatus list" where
  "validStatuses = [active, disabled, limited, expired, on_hold]"

text \<open>
  The object returned by \<open>parseURLParams\<close>; its fields carry the prefix \<open>up_\<close>. The page is a
  JavaScript number, since \<open>Math.max(0, parseInt(..) - 1)\<close> may be \<open>NaN\<close>.
\<close>

record url_params =
  up_page :: jsnum
  up_limit :: int
  up_sort :: string
  up_search :: "string option"
  up_status :: "UserStatus option"
  up_admin :: "string list option"
  up_group :: "int list option"
  up_isProtocol :: bool

definition parseURLParams :: "URLSearchParams \<Rightarrow> int \<Rightarrow> url_params" where
  "parseURLParams searchParams defaultItemsPerPage =
     (let pageParam = usp_get ''page'' searchParams;
          page = (case orUndefined pageParam of
                    Some p \<Rightarrow> jsMax (Num 0) (jsMinus (parseInt p) (Num 1))
                  | None \<Rightarrow> Num 0);
          limit = parseInt (case orUndefined (usp_get ''limit'' searchParams) of
                              Some l \<Rightarrow> l
                            | None \<Rightarrow> intToString defaultItemsPerPage);
          sort = (case orUndefined (usp_get ''sort'' searchParams) of
                    Some v \<Rightarrow> v
                  | None \<Rightarrow> ''-created_at'');
          search = orUndefined (usp_get ''search'' searchParams);
          statusParam = usp_get ''status'' searchParams;
          status = (case orUndefined statusParam of
                      Some v \<Rightarrow> find (\<lambda>st. statusString st = v) validStatuses
                    | None \<Rightarrow> None);
          admin = filter (\<lambda>a. a \<noteq> []) (usp_getAll ''admin'' searchParams);
          group = concat (map (\<lambda>g. case parseInt g of Num n \<Rightarrow> [n] | NaN \<Rightarrow> [])
                              (usp_getAll ''group'' searchParams));
          isProtocol = (usp_get ''is_protocol'' searchParams = Some ''true'')
      in \<lparr> up_page = jsMax (Num 0) page,
           up_limit = (case limit of
                         Num l \<Rightarrow> if l > 0 then l else defaultItemsPerPage
                       | NaN \<Rightarrow> defaultItemsPerPage),
           up_sort = sort,
           up_search = search,
           up_status = status,
           up_admin = nonEmptyOrUndefined admin,
           up_group = nonEmptyOrUndefined group,
           up_isProtocol = isProtocol \<rparr>)"

text \<open>
  The \<open>filters\<close> state of \<open>UsersTable\<close> (prefix \<open>uf_\<close>) and the part of the component state
  that the URL write-back effect and \<open>handleSort\<close> read and write (prefix \<open>uv_\<close>).
\<close>

record users_filters =
  uf_limit :: int
  uf_sort :: string
  uf_load_sub :: bool
  uf_offset :: int
  uf_search :: "string option"
  uf_proxy_id :: "string option"
  uf_is_protocol :: bool
  uf_status :: "UserStatus option"
  uf_admin :: "string list option"
  uf_group :: "int list option"

record users_view =
  uv_currentPage :: int
  uv_itemsPerPage :: int
  uv_isSorting :: bool
  uv_filters :: users_filters

text \<open>
  The \<open>URLSearchParams\<close> built by the write-back effect; \<open>usersPerPageLimitSize\<close> is the
  stored preference read by \<open>getUsersPerPageLimitSize()\<close>.
\<close>

definition writeBackParams :: "int \<Rightarrow> users_view \<Rightarrow> URLSearchParams" where
  "writeBackParams usersPerPageLimitSize v =
     (let filters = uv_filters v;
          searchParams = [];
          searchParams = (if uv_currentPage v > 0
                          then usp_set ''page'' (intToString (uv_currentPage v + 1)) searchParams
                          else searchParams);
          searchParams = (if uv_itemsPerPage v \<noteq> usersPerPageLimitSize
                          then usp_set ''limit'' (intToString (uv_itemsPerPage v)) searchParams
                          else searchParams);
          searchParams = (if uf_sort filters \<noteq> [] \<and> uf_sort filters \<noteq> ''-created_at''
                          then usp_set ''sort'' (uf_sort filters) searchParams
                          else searchParams);
          searchParams = (case orUndefined (uf_search filters) of
                            Some q \<Rightarrow> usp_set ''search'' q searchParams
                          | None \<Rightarrow> searchParams);
          searchParams = (case orUndefined (uf_proxy_id filters) of
                            Some p \<Rightarrow> usp_set ''is_protocol'' ''true'' (usp_set ''search'' p searchParams)
                          | None \<Rightarrow> if uf_is_protocol filters
                                    then usp_set ''is_protocol'' ''true'' searchParams
                                    else searchParams);
          searchParams = (case uf_status filters of
                            Some st \<Rightarrow> usp_set ''status'' (statusString st) searchParams
                          | None \<Rightarrow> searchParams);
          searchParams = (case uf_admin filters of
                            Some admins \<Rightarrow> fold (\<lambda>admin. usp_append ''admin'' admin) admins searchParams
                          | None \<Rightarrow> searchParams);
          searchParams = (case uf_group filters of
                            Some groups \<Rightarrow> fold (\<lambda>group. usp_append ''group'' (intToString group)) groups searchParams
                          | None \<Rightarrow> searchParams)
      in searchParams)"

text \<open>
  The effect itself: nothing is written while the view is still initialising from the URL.
\<close>

definition urlWriteBackEffect :: "bool \<Rightarrow> int \<Rightarrow> users_view \<Rightarrow> URLSearchParams \<Rightarrow> URLSearchParams" where
  "urlWriteBackEffect isInitializingFromURL usersPerPageLimitSize v url =
     (if isInitializingFromURL then url else writeBackParams usersPerPageLimitSize v)"

text \<open>\<open>handleSort\<close> and the timer that releases its lock after 100 ms.\<close>

definition startsWithDash :: "string \<Rightarrow> bool" where
  "startsWithDash column = (case column of c # _ \<Rightarrow> c = CHR ''-'' | [] \<Rightarrow> False)"

definition handleSort :: "string \<Rightarrow> bool \<Rightarrow> users_view \<Rightarrow> users_view" where
  "handleSort column fromDropdown v =
     (if uv_isSorting v then v
      else
        let cleanColumn = (if startsWithDash column then tl column else column);
            sort = uf_sort (uv_filters v);
            newSort =
              (if fromDropdown then
                 (if startsWithDash column then
                    (if sort = ''-'' @ cleanColumn then ''-created_at'' else ''-'' @ cleanColumn)
                  else
                    (if sort = cleanColumn then ''-created_at'' else cleanColumn))
               else
                 (if sort = cleanColumn then ''-'' @ cleanColumn
                  else if sort = ''-'' @ cleanColumn then ''-created_at''
                  else cleanColumn))
        in v\<lparr>uv_isSorting := True, uv_filters := (uv_filters v)\<lparr>uf_sort := newSort\<rparr>\<rparr>)"

definition sortLockTimeout :: "users_view \<Rightarrow> users_view" where
  "sortLockTimeout v = v\<lparr>uv_isSorting := False\<rparr>"

subsection \<open>Node list: state, local search, paging\<close>

definition NODES_PER_PAGE :: int where
  "NODES_PER_PAGE = 15"

text \<open>
  \<open>String.prototype.toLowerCase\<close> on the ASCII letters, \<open>String.prototype.includes\<close> as a
  scan for a position at which the search string is a prefix, and \<open>Array.prototype.slice\<close>
  with its treatment of negative and out-of-range bounds.
\<close>

definition toLowerChar :: "char \<Rightarrow> char" where
  "toLowerChar c =
     (let n = (of_char c :: nat) in if 65 \<le> n \<and> n \<le> 90 then char_of (n + 32) else c)"

definition toLowerCase :: "string \<Rightarrow> string" where
  "toLowerCase s = map toLowerChar s"

fun jsIncludes :: "string \<Rightarrow> string \<Rightarrow> bool" where
  "jsIncludes [] searchString = (searchString = [])"
| "jsIncludes (c # cs) searchString = (prefix searchString (c # cs) \<or> jsIncludes cs searchString)"


text \<open>
  A \<open>NodeResponse\<close> with the fields the list view reads (prefix \<open>node_\<close>); further fields
  live in the record extension. \<open>port\<close> is optional.
\<close>

record node =
  node_id :: int
  node_name :: string
  node_address :: string
  node_port :: "int option"

record nodes_response =
  nr_nodes :: "node list"
  nr_total :: int

text \<open>The \<open>filters\<close> state of \<open>NodesList\<close> (prefix \<open>nf_\<close>); a node status is its API name.\<close>

record nodes_filters =
  nf_limit :: int
  nf_offset :: int
  nf_search :: "string option"
  nf_status :: "string list option"
  nf_core_id :: "int option"

text \<open>
  A \<open>Partial\<close> of the filters as passed to \<open>handleFilterChange\<close> (prefix \<open>pf_\<close>). For
  \<open>limit\<close> and \<open>offset\<close>, \<open>None\<close> is a missing key. For the optional fields a key may be
  missing (\<open>Absent\<close>) or present, also with the value \<open>undefined\<close> (\<open>Present None\<close>), which
  the object spread copies.
\<close>

datatype 'a js_key = Absent | Present 'a

record partial_filters =
  pf_limit :: "int option"
  pf_offset :: "int option"
  pf_search :: "string option js_key"
  pf_status :: "string list option js_key"
  pf_core_id :: "int option js_key"

definition spreadFilters :: "nodes_filters \<Rightarrow> partial_filters \<Rightarrow> nodes_filters" where
  "spreadFilters prev newFilters =
     \<lparr> nf_limit = (case pf_limit newFilters of Some l \<Rightarrow> l | None \<Rightarrow> nf_limit prev),
       nf_offset = (case pf_offset newFilters of Some off \<Rightarrow> off | None \<Rightarrow> nf_offset prev),
       nf_search = (case pf_search newFilters of Present s \<Rightarrow> s | Absent \<Rightarrow> nf_search prev),
       nf_status = (case pf_status newFilters of Present s \<Rightarrow> s | Absent \<Rightarrow> nf_status prev),
       nf_core_id = (case pf_core_id newFilters of Present c \<Rightarrow> c | Absent \<Rightarrow> nf_core_id prev) \<rparr>"

text \<open>
  The state of \<open>NodesList\<close> that paging and searching use (prefix \<open>nv_\<close>);
  \<open>nv_nodesResponse\<close> is the \<open>data\<close> of the query, \<open>None\<close> while there is none.
\<close>

record nodes_view =
  nv_currentPage :: int
  nv_isChangingPage :: bool
  nv_allNodes :: "node list"
  nv_localSearchTerm :: string
  nv_filters :: nodes_filters
  nv_nodesResponse :: "nodes_response option"

definition initialNodesView :: nodes_view where
  "initialNodesView =
     \<lparr> nv_currentPage = 0, nv_isChangingPage = False, nv_allNodes = [], nv_localSearchTerm = [],
       nv_filters = \<lparr> nf_limit = NODES_PER_PAGE, nf_offset = 0, nf_search = None,
                      nf_status = None, nf_core_id = None \<rparr>,
       nv_nodesResponse = None \<rparr>"

definition totalNodesFromResponse :: "nodes_view \<Rightarrow> int" where
  "totalNodesFromResponse v = (case nv_nodesResponse v of Some r \<Rightarrow> nr_total r | None \<Rightarrow> 0)"

definition shouldUseLocalSearch :: "nodes_view \<Rightarrow> bool" where
  "shouldUseLocalSearch v =
     (totalNodesFromResponse v > 0 \<and> totalNodesFromResponse v \<le> NODES_PER_PAGE
      \<and> \<not> truthy (nf_search (nv_filters v)))"

definition syncAllNodesEffect :: "nodes_view \<Rightarrow> nodes_view" where
  "syncAllNodesEffect v =
     (case nv_nodesResponse v of
        Some r \<Rightarrow>
          if shouldUseLocalSearch v \<and> \<not> truthy (nf_search (nv_filters v))
             \<and> nf_offset (nv_filters v) = 0
          then v\<lparr>nv_allNodes := nr_nodes r\<rparr> else v
      | None \<Rightarrow> v)"

definition handleFilterChange :: "partial_filters \<Rightarrow> nodes_view \<Rightarrow> nodes_view" where
  "handleFilterChange newFilters v =
     (let searchValue = (case pf_search newFilters of
                           Present (Some s) \<Rightarrow> Some s
                         | _ \<Rightarrow> nf_search (nv_filters v));
          v1 = v\<lparr>nv_localSearchTerm := (case orUndefined searchValue of Some s \<Rightarrow> s | None \<Rightarrow> [])\<rparr>
      in if shouldUseLocalSearch v \<and> truthy searchValue then v1\<lparr>nv_currentPage := 0\<rparr>
         else
           let v2 = v1\<lparr>nv_filters := spreadFilters (nv_filters v) newFilters\<rparr>
           in if pf_offset newFilters = Some 0 then v2\<lparr>nv_currentPage := 0\<rparr> else v2)"

definition handlePageChange :: "int \<Rightarrow> nodes_view \<Rightarrow> nodes_view" where
  "handlePageChange newPage v =
     (if newPage = nv_currentPage v \<or> nv_isChangingPage v then v
      else if shouldUseLocalSearch v \<and> nv_localSearchTerm v \<noteq> [] then v\<lparr>nv_currentPage := newPage\<rparr>
      else v\<lparr>nv_isChangingPage := True, nv_currentPage := newPage,
             nv_filters := (nv_filters v)\<lparr>nf_offset := newPage * NODES_PER_PAGE\<rparr>\<rparr>)"

definition nodeMatchesSearch :: "string \<Rightarrow> 'a node_scheme \<Rightarrow> bool" where
  "nodeMatchesSearch searchLower node =
     (jsIncludes (toLowerCase (node_name node)) searchLower
      \<or> jsIncludes (toLowerCase (node_address node)) searchLower
      \<or> (case node_port node of
            Some p \<Rightarrow> jsIncludes (intToString p) searchLower
          | None \<Rightarrow> False))"

definition responseNodes :: "nodes_view \<Rightarrow> node list" where
  "responseNodes v = (case nv_nodesResponse v of Some r \<Rightarrow> nr_nodes r | None \<Rightarrow> [])"

definition filteredNodes :: "nodes_view \<Rightarrow> node list" where
  "filteredNodes v =
     (if shouldUseLocalSearch v \<and> nv_localSearchTerm v \<noteq> [] \<and> length (nv_allNodes v) > 0
      then let searchLower = toLowerCase (nv_localSearchTerm v)
           in filter (nodeMatchesSearch searchLower) (nv_allNodes v)
      else responseNodes v)"


definition totalNodes :: "nodes_view \<Rightarrow> int" where
  "totalNodes v =
     (if shouldUseLocalSearch v \<and> nv_localSearchTerm v \<noteq> [] then int (length (filteredNodes v))
      else totalNodesFromResponse v)"

text \<open>\<open>Math.ceil(totalNodes / NODES_PER_PAGE)\<close> on integers.\<close>

definition calculatedTotalPages :: "nodes_view \<Rightarrow> int" where
  "calculatedTotalPages v = - ((- totalNodes v) div NODES_PER_PAGE)"

definition pageClampEffect :: "nodes_view \<Rightarrow> nodes_view" where
  "pageClampEffect v =
     (if calculatedTotalPages v > 0 \<and> nv_currentPage v \<ge> calculatedTotalPages v
      then let lastPage = calculatedTotalPages v - 1
           in v\<lparr>nv_currentPage := lastPage,
                nv_filters := (nv_filters v)\<lparr>nf_offset := lastPage * NODES_PER_PAGE\<rparr>\<rparr>
      else v)"

definition handleAdvanceSearchSubmit :: "string list option \<Rightarrow> int option \<Rightarrow> nodes_view \<Rightarrow> nodes_view" where
  "handleAdvanceSearchSubmit status core_id v =
     v\<lparr>nv_filters := (nv_filters v)
          \<lparr>nf_status := (case status of Some st \<Rightarrow> if length st > 0 then Some st else None | None \<Rightarrow> None),
           nf_core_id := (case core_id of Some c \<Rightarrow> if c = 0 then None else Some c | None \<Rightarrow> None),
           nf_offset := 0\<rparr>,
       nv_currentPage := 0\<rparr>"

definition handleClearAdvanceSearch :: "nodes_view \<Rightarrow> nodes_view" where
  "handleClearAdvanceSearch v =
     v\<lparr>nv_filters := (nv_filters v)\<lparr>nf_status := None, nf_core_id := None, nf_offset := 0\<rparr>,
       nv_currentPage := 0\<rparr>"

text \<open>
  The three kinds of buttons of \<open>NodePaginationControls\<close>, which alone call
  \<open>handlePageChange\<close>. The props \<open>totalPages\<close> and \<open>isLoading\<close> are parameters here, so what
  is proved holds for whatever values the view passes; a disabled button and an ellipsis
  item do nothing.
\<close>

definition clickPrevious :: "int \<Rightarrow> bool \<Rightarrow> nodes_view \<Rightarrow> nodes_view" where
  "clickPrevious totalPages isLoading v =
     (if nv_currentPage v = 0 \<or> isLoading then v else handlePageChange (nv_currentPage v - 1) v)"

definition clickPageLink :: "int \<Rightarrow> bool \<Rightarrow> nat \<Rightarrow> nodes_view \<Rightarrow> nodes_view" where
  "clickPageLink totalPages isLoading i v =
     (let paginationRange = getPaginationRange (nv_currentPage v) totalPages
      in if i < length paginationRange \<and> paginationRange ! i \<noteq> -1 \<and> \<not> isLoading
         then handlePageChange (paginationRange ! i) v else v)"

definition clickNext :: "int \<Rightarrow> bool \<Rightarrow> nodes_view \<Rightarrow> nodes_view" where
  "clickNext totalPages isLoading v =
     (if nv_currentPage v = totalPages - 1 \<or> totalPages = 0 \<or> isLoading then v
      else handlePageChange (nv_currentPage v + 1) v)"

text \<open>
  What can happen to the view: the query delivers data, a page fetch settles (which
  clears \<open>isChangingPage\<close>), the user acts, or one of the two effects runs.
\<close>

datatype nodes_event =
    QueryData "nodes_response option"
  | FetchSettled
  | FilterChange partial_filters
  | ClickPrevious int bool
  | ClickPageLink int bool nat
  | ClickNext int bool
  | AdvanceSearchSubmit "string list option" "int option"
  | ClearAdvanceSearch
  | RunSyncAllNodes
  | RunPageClamp

fun nodesStep :: "nodes_view \<Rightarrow> nodes_event \<Rightarrow> nodes_view" where
  "nodesStep v (QueryData r) = v\<lparr>nv_nodesResponse := r\<rparr>"
| "nodesStep v FetchSettled = v\<lparr>nv_isChangingPage := False\<rparr>"
| "nodesStep v (FilterChange newFilters) = handleFilterChange newFilters v"
| "nodesStep v (ClickPrevious totalPages isLoading) = clickPrevious totalPages isLoading v"
| "nodesStep v (ClickPageLink totalPages isLoading i) = clickPageLink totalPages isLoading i v"
| "nodesStep v (ClickNext totalPages isLoading) = clickNext totalPages isLoading v"
| "nodesStep v (AdvanceSearchSubmit status core_id) = handleAdvanceSearchSubmit status core_id v"
| "nodesStep v ClearAdvanceSearch = handleClearAdvanceSearch v"
| "nodesStep v RunSyncAllNodes = syncAllNodesEffect v"
| "nodesStep v RunPageClamp = pageClampEffect v"

definition runNodesView :: "nodes_event list \<Rightarrow> nodes_view" where
  "runNodesView events = foldl nodesStep initialNodesView events"



definition exampleNodeEvents :: "nodes_event list" where
  "exampleNodeEvents =
     [QueryData (Some \<lparr> nr_nodes = [], nr_total = 40 \<rparr>),
      ClickPageLink 3 False 2,
      FetchSettled,
      QueryData (Some \<lparr> nr_nodes = [], nr_total = 20 \<rparr>)]"

subsection \<open>Debounced search (\<open>useDebouncedSearch\<close>)\<close>

text \<open>
  The hook's state (prefix \<open>dh_\<close>), with time in milliseconds. \<open>dh_pending\<close> is the timer of
  the debounced function: its deadline and the argument of the last call. \<open>dh_commits\<close> logs
  every value handed to \<open>setDebouncedSearch\<close>, in order. The debounced function is the
  trailing-edge \<open>debounce\<close> of the library: a call replaces the pending timer by one that
  fires \<open>delay\<close> ms later with the new argument.
\<close>

record debounce_hook =
  dh_search :: string
  dh_debouncedSearch :: "string option"
  dh_pending :: "(nat \<times> string) option"
  dh_commits :: "string option list"

definition useDebouncedSearch :: "string \<Rightarrow> debounce_hook" where
  "useDebouncedSearch initialValue =
     \<lparr> dh_search = initialValue, dh_debouncedSearch = None, dh_pending = None, dh_commits = [] \<rparr>"

text \<open>Time passes up to \<open>now\<close>: a timer that is due runs \<open>setDebouncedSearch(value || undefined)\<close>.\<close>

definition advanceTo :: "nat \<Rightarrow> debounce_hook \<Rightarrow> debounce_hook" where
  "advanceTo now h =
     (case dh_pending h of
        Some (deadline, v) \<Rightarrow>
          if deadline \<le> now
          then h\<lparr>dh_debouncedSearch := orUndefined (Some v), dh_pending := None,
                 dh_commits := dh_commits h @ [orUndefined (Some v)]\<rparr>
          else h
      | None \<Rightarrow> h)"

text \<open>\<open>setSearch(value)\<close> called at time \<open>now\<close>.\<close>

definition setSearch :: "nat \<Rightarrow> nat \<Rightarrow> string \<Rightarrow> debounce_hook \<Rightarrow> debounce_hook" where
  "setSearch delay now v h =
     (advanceTo now h)\<lparr>dh_search := v, dh_pending := Some (now + delay, v)\<rparr>"

definition unmount :: "debounce_hook \<Rightarrow> debounce_hook" where
  "unmount h = h\<lparr>dh_pending := None\<rparr>"

text \<open>A sequence of calls, each with its time, and the condition that every gap is shorter than the delay.\<close>

definition setSearchAll :: "nat \<Rightarrow> (nat \<times> string) list \<Rightarrow> debounce_hook \<Rightarrow> debounce_hook" where
  "setSearchAll delay calls h = foldl (\<lambda>h c. setSearch delay (fst c) (snd c) h) h calls"

fun rapid :: "nat \<Rightarrow> (nat \<times> string) list \<Rightarrow> bool" where
  "rapid delay (c1 # c2 # calls) =
     (fst c1 \<le> fst c2 \<and> fst c2 < fst c1 + delay \<and> rapid delay (c2 # calls))"
| "rapid delay _ = True"

text \<open>At time \<open>now\<close> no timer is due.\<close>

definition quiet :: "nat \<Rightarrow> debounce_hook \<Rightarrow> bool" where
  "quiet now h = (case dh_pending h of Some (deadline, v) \<Rightarrow> now < deadline | None \<Rightarrow> True)"

subsection \<open>Relative-time texts (\<open>OnlineBadge\<close> tooltip, \<open>useRelativeExpiryDate\<close>)\<close>

text \<open>
  The six differences that both formatters compute with the date library (whole years, then
  the remaining whole months, days, hours, minutes, seconds; each through \<open>Math.abs\<close>), as a
  record with prefix \<open>td_\<close>. The translation function \<open>t\<close> is a parameter.
\<close>

record time_diff =
  td_years :: nat
  td_months :: nat
  td_days :: nat
  td_hours :: nat
  td_minutes :: nat
  td_seconds :: nat

text \<open>The template \<open>`${n} ${t(`time.${n !== 1 ? plural : singular}`)}`\<close> and \<open>Array.prototype.join\<close>.\<close>

definition unitText :: "(string \<Rightarrow> string) \<Rightarrow> nat \<Rightarrow> string \<Rightarrow> string \<Rightarrow> string" where
  "unitText t n singular plural =
     natToString n @ '' '' @ t (''time.'' @ (if n \<noteq> 1 then plural else singular))"

fun joinWith :: "string \<Rightarrow> string list \<Rightarrow> string" where
  "joinWith sep [] = []"
| "joinWith sep [p] = p"
| "joinWith sep (p # ps) = p @ sep @ joinWith sep ps"

definition tooltipParts :: "(string \<Rightarrow> string) \<Rightarrow> time_diff \<Rightarrow> string list" where
  "tooltipParts t d =
     (let parts = [];
          parts = (if td_years d > 0 then parts @ [unitText t (td_years d) ''year'' ''years''] else parts);
          parts = (if td_months d > 0 then parts @ [unitText t (td_months d) ''month'' ''months''] else parts);
          parts = (if td_days d > 0 then parts @ [unitText t (td_days d) ''day'' ''days''] else parts);
          parts = (if td_hours d > 0 \<and> length parts < 2
                   then parts @ [unitText t (td_hours d) ''hour'' ''hours''] else parts);
          parts = (if td_minutes d > 0 \<and> length parts < 2
                   then parts @ [unitText t (td_minutes d) ''min'' ''mins''] else parts);
          parts = (if td_seconds d > 0 \<and> length parts = 0
                   then parts @ [unitText t (td_seconds d) ''second'' ''seconds''] else parts)
      in parts)"

text \<open>
  \<open>getTooltipText\<close>: \<open>lastOnline\<close> says whether a last-online instant is present,
  \<open>diffInSeconds\<close> is the difference of now and that instant in seconds.
\<close>

definition getTooltipText :: "(string \<Rightarrow> string) \<Rightarrow> bool \<Rightarrow> int \<Rightarrow> time_diff \<Rightarrow> string" where
  "getTooltipText t lastOnline diffInSeconds d =
     (if \<not> lastOnline then t ''notConnectedYet''
      else if diffInSeconds \<le> 60 then t ''online''
      else
        let parts = tooltipParts t d
        in if length parts = 0 then t ''time.ago''
           else joinWith '', '' parts @ '' '' @ t ''time.ago'')"

definition expirySlots :: "(string \<Rightarrow> string) \<Rightarrow> time_diff \<Rightarrow> string list" where
  "expirySlots t d =
     (let durationSlots = [];
          durationSlots = (if td_years d > 0
             then durationSlots @ [unitText t (td_years d) ''year'' ''years''] else durationSlots);
          durationSlots = (if td_months d > 0
             then durationSlots @ [unitText t (td_months d) ''month'' ''months''] else durationSlots);
          durationSlots = (if td_days d > 0
             then durationSlots @ [unitText t (td_days d) ''day'' ''days''] else durationSlots);
          durationSlots =
            (if length durationSlots = 0 then
               (let durationSlots = (if td_hours d > 0
                      then durationSlots @ [unitText t (td_hours d) ''hour'' ''hours''] else durationSlots);
                    durationSlots = (if td_minutes d > 0
                      then durationSlots @ [unitText t (td_minutes d) ''min'' ''mins''] else durationSlots)
                in durationSlots)
             else durationSlots)
      in durationSlots)"

text \<open>
  \<open>useRelativeExpiryDate\<close>: \<open>expiryDate\<close> says whether an expiry date is given, \<open>isAfter\<close>
  whether it lies after now. The result has the fields \<open>status\<close> and \<open>time\<close>.
\<close>

record date_info =
  di_status :: string
  di_time :: string

definition useRelativeExpiryDate :: "(string \<Rightarrow> string) \<Rightarrow> bool \<Rightarrow> bool \<Rightarrow> time_diff \<Rightarrow> date_info" where
  "useRelativeExpiryDate t expiryDate isAfter d =
     (if \<not> expiryDate then \<lparr> di_status = [], di_time = [] \<rparr>
      else
        let durationSlots = expirySlots t d
        in \<lparr> di_status = (if isAfter then t ''expires'' else t ''expired''),
             di_time = (if \<not> isAfter \<and> length durationSlots = 0 \<and> td_minutes d < 1
                        then t ''time.justNow''
                        else joinWith '', '' durationSlots
                             @ (if isAfter then [] else '' '' @ t ''time.ago'')) \<rparr>)"

text \<open>The year, month and day parts that both formatters list first.\<close>

definition ymdParts :: "(string \<Rightarrow> string) \<Rightarrow> time_diff \<Rightarrow> string list" where
  "ymdParts t d =
     (if td_years d > 0 then [unitText t (td_years d) ''year'' ''years''] else [])
     @ (if td_months d > 0 then [unitText t (td_months d) ''month'' ''months''] else [])
     @ (if td_days d > 0 then [unitText t (td_days d) ''day'' ''days''] else [])"


section \<open>Verification\<close>

subsection \<open>Pagination window\<close>

declare pushBelow.simps [simp del] pushThrough.simps [simp del]

lemma pushThrough_upto: "pushThrough i e rng = rng @ [i..e]"
proof (induction i e rng rule: pushThrough.induct)
  case (1 i e rng)
  show ?case
  proof (cases "i \<le> e")
    case True
    then show ?thesis using 1 by (simp add: pushThrough.simps [of i] upto_rec1)
  next
    case False
    then show ?thesis by (simp add: pushThrough.simps [of i])
  qed
qed

lemma pushBelow_upto: "pushBelow i n rng = rng @ [i..n - 1]"
proof (induction i n rng rule: pushBelow.induct)
  case (1 i n rng)
  show ?case
  proof (cases "i < n")
    case True
    then show ?thesis using 1 by (simp add: pushBelow.simps [of i] upto_rec1)
  next
    case False
    then show ?thesis by (simp add: pushBelow.simps [of i])
  qed
qed



lemma upto_nat: "[0..n - 1] = map int [0..<nat n]"
proof (cases "0 \<le> n")
  case True
  then obtain k where k: "n = int k" using nonneg_int_cases by blast
  show ?thesis unfolding k
  proof (induction k)
    case 0
    then show ?case by simp
  next
    case (Suc k)
    have "[0..int (Suc k) - 1] = [0..int k - 1] @ [int k]"
      using upto_rec2 [of 0 "int k"] by simp
    moreover have "nat (int (Suc k)) = Suc k" by simp
    ultimately show ?case using Suc by (simp del: of_nat_Suc)
  qed
next
  case False
  then show ?thesis by simp
qed

lemma range_small: "tp \<le> 5 \<Longrightarrow> getPaginationRange cp tp = map int [0..<nat tp]"
  by (simp add: getPaginationRange_def pushBelow_upto upto_nat)

lemma range_large:
  assumes "5 < tp"
  shows "getPaginationRange cp tp =
     0 # (if 1 < (if tp - 2 \<le> cp + 2 then max 1 (tp - 7) else max 1 (cp - 2)) then [-1] else [])
       @ [(if tp - 2 \<le> cp + 2 then max 1 (tp - 7) else max 1 (cp - 2))
          ..(if cp - 2 \<le> 1 then min (tp - 2) (max 1 (cp - 2) + 4) else min (tp - 2) (cp + 2))]
       @ (if (if cp - 2 \<le> 1 then min (tp - 2) (max 1 (cp - 2) + 4) else min (tp - 2) (cp + 2)) < tp - 2 then [-1] else [])
       @ [tp - 1]"
  using assms by (auto simp add: getPaginationRange_def Let_def pushThrough_upto)

lemma filter_upto_pos: "1 \<le> s \<Longrightarrow> filter (\<lambda>p. p \<noteq> -1) [s..e] = [s..e]"
  by (rule filter_True) auto

lemma shape_sorted:
  assumes "1 \<le> s" "s \<le> e" "e \<le> t - 1" "set L1 \<subseteq> {-1}" "set L2 \<subseteq> {-1}"
  shows "sorted_wrt (<) (filter (\<lambda>p. p \<noteq> -1) ((0 # L1) @ [s..e] @ L2 @ [t]))"
proof -
  have 1: "filter (\<lambda>p. p \<noteq> -1) L1 = []" using assms(4) by (auto simp: filter_empty_conv)
  have 2: "filter (\<lambda>p. p \<noteq> -1) L2 = []" using assms(5) by (auto simp: filter_empty_conv)
  have t: "t \<noteq> -1" using assms by auto
  show ?thesis using assms(1,2,3) t
    by (auto simp: 1 2 filter_upto_pos sorted_wrt_append)
qed


lemma nth_mid: "length P \<le> i \<Longrightarrow> i < length P + length M \<Longrightarrow> (P @ M @ S) ! i = M ! (i - length P)"
proof -
  assume a: "length P \<le> i" "i < length P + length M"
  then have "i - length P < length M" by linarith
  with a show ?thesis by (simp add: nth_append)
qed

lemma nth_suffix: "(P @ M @ S) ! (length P + length M + j) = S ! j"
  by (simp add: nth_append)

lemma shape_gaps:
  assumes s: "1 \<le> s" "s \<le> e" "e \<le> t - 1"
    and r: "r = (0 # La) @ [s..e] @ Lb @ [t]"
    and La: "La = (if 1 < s then [-1] else [])"
    and Lb: "Lb = (if e < t - 1 then [-1] else [])"
    and i: "i < length r" "r ! i = -1"
  shows "0 < i \<and> Suc i < length r \<and> r ! (i - 1) \<noteq> -1 \<and> r ! Suc i \<noteq> -1
         \<and> r ! (i - 1) + 1 < r ! Suc i"
proof -
  let ?P = "0 # La" and ?M = "[s..e]" and ?S = "Lb @ [t]"
  define m where "m = length ?M"
  have m: "0 < m" using s by (simp add: m_def)
  have M0: "?M ! 0 = s" using s by (simp add: nth_upto)
  have Ml: "?M ! (m - 1) = e" using s by (simp add: m_def nth_upto)
  have Mk: "?M ! k \<noteq> -1" if "k < m" for k
  proof -
    have "?M ! k = s + int k" using that s by (intro nth_upto) (simp add: m_def)
    then show ?thesis using s by simp
  qed
  consider (P) "i < length ?P" | (M) "length ?P \<le> i" "i < length ?P + m"
    | (S) "length ?P + m \<le> i" by linarith
  then show ?thesis
  proof cases
    case P
    then have "r ! i = ?P ! i" unfolding r by (simp only: nth_append if_True)
    with i(2) P have A: "1 < s" "i = 1" by (auto simp: La nth_Cons' split: if_splits)
    have r': "r = [0, -1] @ ?M @ ?S" using A by (simp add: r La)
    have "r ! 0 = 0" by (simp add: r)
    moreover have "r ! 2 = s" using M0 m unfolding r' m_def by (simp add: nth_append)
    moreover have "2 < length r" using m unfolding r' m_def by simp
    ultimately show ?thesis using A by (simp add: numeral_2_eq_2)
  next
    case M
    then have "r ! i = ?M ! (i - length ?P)"
      unfolding r m_def by (rule nth_mid)
    moreover have "i - length ?P < m" using M by linarith
    ultimately show ?thesis using Mk i(2) by metis
  next
    case S
    define j where "j = i - (length ?P + m)"
    have ij: "i = length ?P + m + j" using S by (simp add: j_def)
    have rS: "r ! i = ?S ! j"
      unfolding r ij m_def by (rule nth_suffix)
    have t: "t \<noteq> -1" using s by auto
    have jlen: "j < length ?S" using i(1) unfolding r ij m_def by simp
    with rS i(2) t have B: "e < t - 1" "j = 0"
      by (auto simp: Lb nth_Cons' split: if_splits)
    have r': "r = (?P @ ?M) @ [-1, t]" using B by (simp add: r Lb)
    have i': "i = length (?P @ ?M)" using B ij by (simp add: m_def)
    have "r ! (i - 1) = e"
    proof -
      have i1: "i - 1 = length ?P + (m - 1)" using i' m by (simp add: m_def)
      have "length ?P \<le> i - 1" "i - 1 < length ?P + length ?M"
        using i1 m by (simp_all add: m_def)
      then have "r ! (i - 1) = ?M ! (i - 1 - length ?P)"
        unfolding r by (rule nth_mid)
      also have "i - 1 - length ?P = m - 1" using i1 by simp
      finally have "r ! (i - 1) = ?M ! (m - 1)" .
      then show ?thesis using Ml by simp
    qed
    moreover have "r ! Suc i = t" unfolding r' i' by (simp add: nth_append)
    moreover have "Suc i < length r" unfolding r' i' by simp
    moreover have "0 < i" using i' by simp
    ultimately show ?thesis using B s t by simp
  qed
qed

text \<open>
  C6: when there are at most five pages, the window is exactly the list of all page
  indices \<open>0, 1, ..., totalPages - 1\<close> (empty when there is no page), and it holds no
  ellipsis marker.
\<close>

theorem small_window_lists_all_pages:
  assumes "totalPages \<le> 5"
  shows "getPaginationRange currentPage totalPages = map int [0..<nat totalPages]
       \<and> -1 \<notin> set (getPaginationRange currentPage totalPages)"
  using assms by (auto simp: range_small)

theorem small_window_lists_all_pages_witness:
  "(4::int) \<le> 5 \<and> getPaginationRange 2 4 = [0, 1, 2, 3] \<and> -1 \<notin> set (getPaginationRange 2 4)"
  using small_window_lists_all_pages [of 4 2] by (simp add: upt_rec)

text \<open>
  C5: for a current page inside the page count, the window is strictly increasing once
  the ellipsis markers are dropped, has at most nine entries, starts with page \<open>0\<close> and
  ends with the last page when there are more than five pages, and every ellipsis marker
  stands between two listed page indices that are not adjacent.
\<close>

theorem pagination_window_invariants:
  assumes "0 \<le> currentPage" "currentPage < totalPages"
  defines "r \<equiv> getPaginationRange currentPage totalPages"
  shows "sorted_wrt (<) (filter (\<lambda>p. p \<noteq> -1) r)
       \<and> length r \<le> 9
       \<and> (5 < totalPages \<longrightarrow> hd r = 0 \<and> last r = totalPages - 1)
       \<and> (\<forall>i < length r. r ! i = -1 \<longrightarrow>
             0 < i \<and> Suc i < length r \<and> r ! (i - 1) \<noteq> -1 \<and> r ! Suc i \<noteq> -1
             \<and> r ! (i - 1) + 1 < r ! Suc i)"
proof (cases "totalPages \<le> 5")
  case True
  have r: "r = map int [0..<nat totalPages]" using True by (simp add: r_def range_small)
  have "sorted_wrt (<) r" unfolding r by (simp add: sorted_wrt_map)
  moreover have no: "-1 \<notin> set r" unfolding r by auto
  then have "filter (\<lambda>p. p \<noteq> -1) r = r" by (intro filter_True) auto
  moreover have "length r \<le> 9" using True unfolding r by simp
  moreover have "\<forall>i < length r. r ! i \<noteq> -1" using no nth_mem by metis
  ultimately show ?thesis using True by simp
next
  case False
  then have big: "5 < totalPages" by simp
  define s where "s = (if totalPages - 2 \<le> currentPage + 2 then max 1 (totalPages - 7) else max 1 (currentPage - 2))"
  define e where "e = (if currentPage - 2 \<le> 1 then min (totalPages - 2) (max 1 (currentPage - 2) + 4) else min (totalPages - 2) (currentPage + 2))"
  define La :: "int list" where "La = (if 1 < s then [-1] else [])"
  define Lb :: "int list" where "Lb = (if e < totalPages - 1 - 1 then [-1] else [])"
  have r: "r = (0 # La) @ [s..e] @ Lb @ [totalPages - 1]"
    unfolding r_def range_large [OF big] s_def e_def La_def Lb_def by simp
  have s: "1 \<le> s" "s \<le> e" "e \<le> totalPages - 1 - 1"
    using assms(1,2) big by (auto simp: s_def e_def)
  have len: "e - s + (if 1 < s then 1 else 0) + (if e < totalPages - 2 then 1 else 0) \<le> 6"
    using assms(1,2) big by (auto simp: s_def e_def)
  have "set La \<subseteq> {-1}" "set Lb \<subseteq> {-1}" by (auto simp: La_def Lb_def)
  then have "sorted_wrt (<) (filter (\<lambda>p. p \<noteq> -1) r)"
    unfolding r by (rule shape_sorted [OF s])
  moreover have "length r \<le> 9"
    using len s unfolding r La_def Lb_def by (auto split: if_splits)
  moreover have "hd r = 0 \<and> last r = totalPages - 1" unfolding r by simp
  moreover have "\<forall>i < length r. r ! i = -1 \<longrightarrow>
             0 < i \<and> Suc i < length r \<and> r ! (i - 1) \<noteq> -1 \<and> r ! Suc i \<noteq> -1
             \<and> r ! (i - 1) + 1 < r ! Suc i"
    using shape_gaps [OF s r La_def Lb_def] by blast
  ultimately show ?thesis by blast
qed


theorem pagination_window_invariants_witness:
  "(0::int) \<le> 10 \<and> (10::int) < 20
   \<and> sorted_wrt (<) (filter (\<lambda>p. p \<noteq> -1) (getPaginationRange 10 20))
   \<and> length (getPaginationRange 10 20) \<le> 9
   \<and> hd (getPaginationRange 10 20) = 0 \<and> last (getPaginationRange 10 20) = 19"
  using pagination_window_invariants [of 10 20] by simp

subsection \<open>Users table: URL state\<close>





declare natToString.simps [simp del]




lemma map_of_filter_other: "k \<noteq> k' \<Longrightarrow> map_of (filter (\<lambda>q. fst q \<noteq> k') ps) k = map_of ps k"
  by (induction ps) auto

lemma get_set: "usp_get k (usp_set k' v ps) = (if k = k' then Some v else usp_get k ps)"
  by (induction ps) (auto simp: usp_get_def map_of_filter_other)

lemma get_fold_append:
  "k \<noteq> k' \<Longrightarrow> usp_get k (fold (\<lambda>a. usp_append k' (f a)) xs ps) = usp_get k ps"
  by (induction xs arbitrary: ps) (auto simp: usp_get_def usp_append_def map_add_def split: option.splits)

lemma getAll_set: "k \<noteq> k' \<Longrightarrow> usp_getAll k (usp_set k' v ps) = usp_getAll k ps"
proof (induction ps)
  case Nil
  then show ?case by (simp add: usp_getAll_def)
next
  case (Cons p ps)
  have "filter (\<lambda>p. fst p = k) (filter (\<lambda>q. fst q \<noteq> k') ps) = filter (\<lambda>p. fst p = k) ps"
    using Cons.prems by (induction ps) auto
  then show ?case using Cons by (auto simp: usp_getAll_def)
qed

lemma getAll_fold_append_same:
  "usp_getAll k (fold (\<lambda>a. usp_append k (f a)) xs ps) = usp_getAll k ps @ map f xs"
  by (induction xs arbitrary: ps) (auto simp: usp_getAll_def usp_append_def)

lemma getAll_fold_append_other:
  "k \<noteq> k' \<Longrightarrow> usp_getAll k (fold (\<lambda>a. usp_append k' (f a)) xs ps) = usp_getAll k ps"
  by (induction xs arbitrary: ps) (auto simp: usp_getAll_def usp_append_def)

declare usp_set.simps [simp del]

lemma getAll_empty: "usp_getAll k [] = []" "usp_get k [] = None"
  by (simp_all add: usp_getAll_def usp_get_def)


lemma wb_gets:
  fixes D :: int and v :: users_view
  defines "f \<equiv> uv_filters v"
  shows wb_get_page: "usp_get ''page'' (writeBackParams D v) =
     (if 0 < uv_currentPage v then Some (intToString (uv_currentPage v + 1)) else None)"
    and wb_get_limit: "usp_get ''limit'' (writeBackParams D v) =
     (if uv_itemsPerPage v \<noteq> D then Some (intToString (uv_itemsPerPage v)) else None)"
    and wb_get_sort: "usp_get ''sort'' (writeBackParams D v) =
     (if uf_sort f \<noteq> [] \<and> uf_sort f \<noteq> ''-created_at'' then Some (uf_sort f) else None)"
    and wb_get_search: "usp_get ''search'' (writeBackParams D v) =
     (case orUndefined (uf_proxy_id f) of Some p \<Rightarrow> Some p | None \<Rightarrow> orUndefined (uf_search f))"
    and wb_get_is_protocol: "usp_get ''is_protocol'' (writeBackParams D v) =
     (if truthy (uf_proxy_id f) \<or> uf_is_protocol f then Some ''true'' else None)"
    and wb_get_status: "usp_get ''status'' (writeBackParams D v) = map_option statusString (uf_status f)"
    and wb_getAll_admin: "usp_getAll ''admin'' (writeBackParams D v) =
     (case uf_admin f of Some admins \<Rightarrow> admins | None \<Rightarrow> [])"
    and wb_getAll_group: "usp_getAll ''group'' (writeBackParams D v) =
     (case uf_group f of Some groups \<Rightarrow> map intToString groups | None \<Rightarrow> [])"
proof -
  define s1 where "s1 = (if uv_currentPage v > 0
      then usp_set ''page'' (intToString (uv_currentPage v + 1)) [] else [])"
  define s2 where "s2 = (if uv_itemsPerPage v \<noteq> D
      then usp_set ''limit'' (intToString (uv_itemsPerPage v)) s1 else s1)"
  define s3 where "s3 = (if uf_sort f \<noteq> [] \<and> uf_sort f \<noteq> ''-created_at''
      then usp_set ''sort'' (uf_sort f) s2 else s2)"
  define s4 where "s4 = (case orUndefined (uf_search f) of
      Some q \<Rightarrow> usp_set ''search'' q s3 | None \<Rightarrow> s3)"
  define s5 where "s5 = (case orUndefined (uf_proxy_id f) of
      Some p \<Rightarrow> usp_set ''is_protocol'' ''true'' (usp_set ''search'' p s4)
    | None \<Rightarrow> if uf_is_protocol f then usp_set ''is_protocol'' ''true'' s4 else s4)"
  define s6 where "s6 = (case uf_status f of
      Some st \<Rightarrow> usp_set ''status'' (statusString st) s5 | None \<Rightarrow> s5)"
  define s7 where "s7 = (case uf_admin f of
      Some admins \<Rightarrow> fold (\<lambda>admin. usp_append ''admin'' admin) admins s6 | None \<Rightarrow> s6)"
  define s8 where "s8 = (case uf_group f of
      Some groups \<Rightarrow> fold (\<lambda>group. usp_append ''group'' (intToString group)) groups s7 | None \<Rightarrow> s7)"
  have wb: "writeBackParams D v = s8"
    unfolding writeBackParams_def Let_def s8_def s7_def s6_def s5_def s4_def s3_def s2_def s1_def f_def
    by (rule refl)
  note st = get_set get_fold_append getAll_set getAll_fold_append_same getAll_fold_append_other
    getAll_empty
  have g1: "usp_get k s1 = (if k = ''page'' \<and> 0 < uv_currentPage v
      then Some (intToString (uv_currentPage v + 1)) else None)" for k
    by (simp add: s1_def st)
  have g2: "usp_get k s2 = (if k = ''limit'' \<and> uv_itemsPerPage v \<noteq> D
      then Some (intToString (uv_itemsPerPage v)) else usp_get k s1)" for k
    by (simp add: s2_def st)
  have g3: "usp_get k s3 = (if k = ''sort'' \<and> uf_sort f \<noteq> [] \<and> uf_sort f \<noteq> ''-created_at''
      then Some (uf_sort f) else usp_get k s2)" for k
    by (simp add: s3_def st)
  have g4: "usp_get k s4 = (if k = ''search'' \<and> orUndefined (uf_search f) \<noteq> None
      then orUndefined (uf_search f) else usp_get k s3)" for k
    by (cases "orUndefined (uf_search f)") (simp_all add: s4_def st)
  have g5: "usp_get k s5 =
      (if k = ''is_protocol'' \<and> (truthy (uf_proxy_id f) \<or> uf_is_protocol f) then Some ''true''
       else if k = ''search'' \<and> truthy (uf_proxy_id f) then orUndefined (uf_proxy_id f)
       else usp_get k s4)" for k
    by (cases "orUndefined (uf_proxy_id f)") (simp_all add: s5_def st truthy_def)
  have g6: "usp_get k s6 = (if k = ''status'' \<and> uf_status f \<noteq> None
      then map_option statusString (uf_status f) else usp_get k s5)" for k
    by (cases "uf_status f") (simp_all add: s6_def st)
  have g7: "k \<noteq> ''admin'' \<Longrightarrow> usp_get k s7 = usp_get k s6" for k
    by (cases "uf_admin f") (simp_all add: s7_def st)
  have g8: "k \<noteq> ''group'' \<Longrightarrow> usp_get k s8 = usp_get k s7" for k
    by (cases "uf_group f") (simp_all add: s8_def st)
  have a6: "k \<in> {''admin'', ''group''} \<Longrightarrow> usp_getAll k s6 = []" for k
    by (cases "orUndefined (uf_search f)"; cases "orUndefined (uf_proxy_id f)"; cases "uf_status f")
       (auto simp: s6_def s5_def s4_def s3_def s2_def s1_def st)
  have a7: "usp_getAll ''admin'' s7 = (case uf_admin f of Some admins \<Rightarrow> admins | None \<Rightarrow> [])"
    "usp_getAll ''group'' s7 = []"
    by (cases "uf_admin f"; simp add: s7_def st a6)+
  have a8: "usp_getAll ''admin'' s8 = usp_getAll ''admin'' s7"
    "usp_getAll ''group'' s8 = (case uf_group f of Some groups \<Rightarrow> map intToString groups | None \<Rightarrow> [])"
    by (cases "uf_group f"; simp add: s8_def st a7)+
  show "usp_get ''page'' (writeBackParams D v) =
     (if 0 < uv_currentPage v then Some (intToString (uv_currentPage v + 1)) else None)"
    by (simp add: wb g8 g7 g6 g5 g4 g3 g2 g1)
  show "usp_get ''limit'' (writeBackParams D v) =
     (if uv_itemsPerPage v \<noteq> D then Some (intToString (uv_itemsPerPage v)) else None)"
    by (simp add: wb g8 g7 g6 g5 g4 g3 g2 g1)
  show "usp_get ''sort'' (writeBackParams D v) =
     (if uf_sort f \<noteq> [] \<and> uf_sort f \<noteq> ''-created_at'' then Some (uf_sort f) else None)"
    by (simp add: wb g8 g7 g6 g5 g4 g3 g2 g1)
  show "usp_get ''search'' (writeBackParams D v) =
     (case orUndefined (uf_proxy_id f) of Some p \<Rightarrow> Some p | None \<Rightarrow> orUndefined (uf_search f))"
    by (cases "orUndefined (uf_proxy_id f)"; cases "orUndefined (uf_search f)")
       (simp_all add: wb g8 g7 g6 g5 g4 g3 g2 g1 truthy_def)
  show "usp_get ''is_protocol'' (writeBackParams D v) =
     (if truthy (uf_proxy_id f) \<or> uf_is_protocol f then Some ''true'' else None)"
    by (simp add: wb g8 g7 g6 g5 g4 g3 g2 g1)
  show "usp_get ''status'' (writeBackParams D v) = map_option statusString (uf_status f)"
    by (cases "uf_status f") (simp_all add: wb g8 g7 g6 g5 g4 g3 g2 g1)
  show "usp_getAll ''admin'' (writeBackParams D v) =
     (case uf_admin f of Some admins \<Rightarrow> admins | None \<Rightarrow> [])"
    by (simp add: wb a8 a7)
  show "usp_getAll ''group'' (writeBackParams D v) =
     (case uf_group f of Some groups \<Rightarrow> map intToString groups | None \<Rightarrow> [])"
    by (simp add: wb a8)
qed

lemma orUndefined_nonempty: "s \<noteq> [] \<Longrightarrow> orUndefined (Some s) = Some s"
  by simp

lemma orUndefined_idem: "orUndefined (orUndefined x) = orUndefined x"
  by (cases x) auto







text \<open>
  C2: a non-numeric \<open>page\<close> parameter is not replaced by the default page \<open>0\<close>:
  \<open>Math.max(0, NaN)\<close> is \<open>NaN\<close>, so \<open>parseURLParams\<close> returns the page \<open>NaN\<close>, while a
  non-numeric \<open>limit\<close>, an unknown \<open>status\<close> and a non-numeric \<open>group\<close> entry in the
  same query string do fall back to their defaults.
\<close>

theorem parse_non_numeric_page_is_NaN:
  "parseURLParams [(''page'', ''abc''), (''limit'', ''abc''), (''status'', ''bogus''), (''group'', ''x'')] 10
     = \<lparr> up_page = NaN, up_limit = 10, up_sort = ''-created_at'', up_search = None,
         up_status = None, up_admin = None, up_group = None, up_isProtocol = False \<rparr>"
  by (simp add: parseURLParams_def Let_def usp_get_def usp_getAll_def parseInt_def
      isWhiteSpace_def isDigit_def validStatuses_def nonEmptyOrUndefined_def)

subsection \<open>Users table: sort cycle\<close>

text \<open>
  C7: while no sort is being applied, a header click (\<open>fromDropdown = false\<close>) on a column
  moves the sort from any value that is neither the column nor its descending form to the
  column (ascending), from the column to its descending form, and from the descending
  form to the default \<open>-created_at\<close>, so three clicks run through the whole cycle. A
  dropdown choice (\<open>fromDropdown = true\<close>) of a directional target that is already the
  sort reverts to the default, and any other target becomes the sort.
\<close>

theorem handleSort_cycle:
  fixes column :: string and v :: users_view
  assumes "\<not> uv_isSorting v"
  defines "c \<equiv> (if startsWithDash column then tl column else column)"
  defines "current \<equiv> uf_sort (uv_filters v)"
  shows "(current \<noteq> c \<and> current \<noteq> ''-'' @ c \<longrightarrow> uf_sort (uv_filters (handleSort column False v)) = c)
       \<and> (current = c \<longrightarrow> uf_sort (uv_filters (handleSort column False v)) = ''-'' @ c)
       \<and> (current = ''-'' @ c \<longrightarrow> uf_sort (uv_filters (handleSort column False v)) = ''-created_at'')
       \<and> (current \<noteq> c \<and> current \<noteq> ''-'' @ c \<longrightarrow>
            uf_sort (uv_filters (handleSort column False (sortLockTimeout (handleSort column False v))))
              = ''-'' @ c
          \<and> uf_sort (uv_filters (handleSort column False (sortLockTimeout
               (handleSort column False (sortLockTimeout (handleSort column False v))))))
              = ''-created_at'')
       \<and> (current = column \<longrightarrow> uf_sort (uv_filters (handleSort column True v)) = ''-created_at'')
       \<and> (current \<noteq> column \<longrightarrow> uf_sort (uv_filters (handleSort column True v)) = column)"
proof -
  have dash: "startsWithDash column \<Longrightarrow> ''-'' @ tl column = column"
    by (cases column) (auto simp: startsWithDash_def)
  have ne: "''-'' @ c \<noteq> c" by simp
  show ?thesis
    using assms(1) dash ne
    by (auto simp: handleSort_def sortLockTimeout_def Let_def c_def current_def)
qed

theorem handleSort_cycle_witness:
  "uf_sort (uv_filters (handleSort ''username'' False
      \<lparr> uv_currentPage = 0, uv_itemsPerPage = 10, uv_isSorting = False,
        uv_filters = \<lparr> uf_limit = 10, uf_sort = ''-created_at'', uf_load_sub = True, uf_offset = 0,
          uf_search = None, uf_proxy_id = None, uf_is_protocol = False,
          uf_status = None, uf_admin = None, uf_group = None \<rparr> \<rparr>)) = ''username''
   \<and> uf_sort (uv_filters (handleSort ''-expire'' True
      \<lparr> uv_currentPage = 0, uv_itemsPerPage = 10, uv_isSorting = False,
        uv_filters = \<lparr> uf_limit = 10, uf_sort = ''-created_at'', uf_load_sub = True, uf_offset = 0,
          uf_search = None, uf_proxy_id = None, uf_is_protocol = False,
          uf_status = None, uf_admin = None, uf_group = None \<rparr> \<rparr>)) = ''-expire''"
  using handleSort_cycle [of "\<lparr> uv_currentPage = 0, uv_itemsPerPage = 10, uv_isSorting = False,
        uv_filters = \<lparr> uf_limit = 10, uf_sort = ''-created_at'', uf_load_sub = True, uf_offset = 0,
          uf_search = None, uf_proxy_id = None, uf_is_protocol = False,
          uf_status = None, uf_admin = None, uf_group = None \<rparr> \<rparr>" "''username''"]
    handleSort_cycle [of "\<lparr> uv_currentPage = 0, uv_itemsPerPage = 10, uv_isSorting = False,
        uv_filters = \<lparr> uf_limit = 10, uf_sort = ''-created_at'', uf_load_sub = True, uf_offset = 0,
          uf_search = None, uf_proxy_id = None, uf_is_protocol = False,
          uf_status = None, uf_admin = None, uf_group = None \<rparr> \<rparr>" "''-expire''"]
  by (simp add: startsWithDash_def)

subsection \<open>Node list: local search and paging\<close>


lemma toLowerChar_idem: "toLowerChar (toLowerChar c) = toLowerChar c"
proof -
  have "of_char (char_of (of_char c + 32 :: nat)) = (of_char c + 32 :: nat)"
    if "(of_char c :: nat) \<le> 90"
    using that by simp
  then show ?thesis by (auto simp: toLowerChar_def Let_def)
qed

lemma toLowerCase_idem: "toLowerCase (toLowerCase s) = toLowerCase s"
  by (simp add: toLowerCase_def toLowerChar_idem)




lemma slu_term [simp]: "shouldUseLocalSearch (v\<lparr>nv_localSearchTerm := t\<rparr>) = shouldUseLocalSearch v"
  by (simp add: shouldUseLocalSearch_def totalNodesFromResponse_def)

lemma slu_page [simp]: "shouldUseLocalSearch (v\<lparr>nv_currentPage := p\<rparr>) = shouldUseLocalSearch v"
  by (simp add: shouldUseLocalSearch_def totalNodesFromResponse_def)



lemma range_large_shape:
  assumes "5 < tp"
  obtains s e La Lb where
    "getPaginationRange cp tp = (0 # La) @ [s..e] @ Lb @ [tp - 1]"
    "1 \<le> s" "set La \<subseteq> {-1}" "set Lb \<subseteq> {-1}"
proof -
  define s where "s = (if tp - 2 \<le> cp + 2 then max 1 (tp - 7) else max 1 (cp - 2))"
  define e where "e = (if cp - 2 \<le> 1 then min (tp - 2) (max 1 (cp - 2) + 4) else min (tp - 2) (cp + 2))"
  define La :: "int list" where "La = (if 1 < s then [-1] else [])"
  define Lb :: "int list" where "Lb = (if e < tp - 2 then [-1] else [])"
  have "getPaginationRange cp tp = (0 # La) @ [s..e] @ Lb @ [tp - 1]"
    unfolding range_large [OF assms] s_def e_def La_def Lb_def by simp
  moreover have "1 \<le> s" by (simp add: s_def)
  moreover have "set La \<subseteq> {-1}" "set Lb \<subseteq> {-1}" by (auto simp: La_def Lb_def)
  ultimately show ?thesis using that by blast
qed

lemma range_nonneg:
  assumes "p \<in> set (getPaginationRange cp tp)" "p \<noteq> -1"
  shows "0 \<le> p"
proof (cases "tp \<le> 5")
  case True
  then have "p \<in> int ` set [0..<nat tp]" using assms(1) by (simp add: range_small)
  then show ?thesis by (auto simp del: set_upt)
next
  case False
  then have big: "5 < tp" by simp
  from range_large_shape [OF big, of cp]
  obtain s e La Lb where r: "getPaginationRange cp tp = (0 # La) @ [s..e] @ Lb @ [tp - 1]"
    and s: "1 \<le> s" and L: "set La \<subseteq> {-1}" "set Lb \<subseteq> {-1}"
    by metis
  have "p \<in> set (0 # La) \<union> set [s..e] \<union> set Lb \<union> {tp - 1}"
    using assms(1) unfolding r by (simp only: set_append set_simps) blast
  then consider "p = 0" | "p \<in> set La" | "p \<in> set [s..e]" | "p \<in> set Lb" | "p = tp - 1"
    by (simp only: set_simps) blast
  then show ?thesis
  proof cases
    case 2
    then show ?thesis using L(1) assms(2) by blast
  next
    case 3
    then show ?thesis using s by simp
  next
    case 4
    then show ?thesis using L(2) assms(2) by blast
  next
    case 5
    then show ?thesis using big by simp
  qed simp
qed

lemma handlePageChange_page:
  "0 \<le> nv_currentPage v \<Longrightarrow> 0 \<le> p \<Longrightarrow> 0 \<le> nv_currentPage (handlePageChange p v)"
  by (simp add: handlePageChange_def)

lemma nodesStep_nonneg:
  assumes "0 \<le> nv_currentPage v"
  shows "0 \<le> nv_currentPage (nodesStep v e)"
proof (cases e)
  case (FilterChange nf)
  then show ?thesis using assms by (simp add: handleFilterChange_def Let_def)
next
  case (ClickPrevious tp l)
  then show ?thesis using assms by (simp add: clickPrevious_def handlePageChange_page)
next
  case (ClickPageLink tp l i)
  show ?thesis
  proof (cases "i < length (getPaginationRange (nv_currentPage v) tp)
      \<and> getPaginationRange (nv_currentPage v) tp ! i \<noteq> -1 \<and> \<not> l")
    case True
    then have "0 \<le> getPaginationRange (nv_currentPage v) tp ! i"
      using range_nonneg nth_mem by blast
    then show ?thesis using True assms ClickPageLink
      by (simp add: clickPageLink_def Let_def handlePageChange_page)
  next
    case False
    then show ?thesis using assms ClickPageLink by (auto simp: clickPageLink_def Let_def)
  qed
next
  case (ClickNext tp l)
  then show ?thesis using assms by (simp add: clickNext_def handlePageChange_page)
next
  case RunSyncAllNodes
  then show ?thesis using assms by (simp add: syncAllNodesEffect_def split: option.split)
next
  case RunPageClamp
  then show ?thesis using assms by (simp add: pageClampEffect_def Let_def)
qed (use assms in \<open>simp_all add: handleAdvanceSearchSubmit_def handleClearAdvanceSearch_def\<close>)

lemma runNodesView_nonneg: "0 \<le> nv_currentPage (runNodesView events)"
  unfolding runNodesView_def
  by (induction events rule: rev_induct) (simp_all add: initialNodesView_def nodesStep_nonneg)

lemma example_run:
  "nv_currentPage (runNodesView exampleNodeEvents) = 2"
  "calculatedTotalPages (runNodesView exampleNodeEvents) = 2"
  by code_simp+

text \<open>
  C8: after any sequence of events of the node list view the current page index is
  \<open>\<ge> 0\<close>; and whenever the computed page count is positive and not above the current
  page index, the clamp effect sets the current page to the last page and the fetch offset
  to fifteen times that page.
\<close>

theorem page_index_clamped:
  fixes events :: "nodes_event list"
  defines "v \<equiv> runNodesView events"
  shows "0 \<le> nv_currentPage v
       \<and> (0 < calculatedTotalPages v \<and> calculatedTotalPages v \<le> nv_currentPage v \<longrightarrow>
            nv_currentPage (pageClampEffect v) = calculatedTotalPages v - 1
          \<and> nf_offset (nv_filters (pageClampEffect v)) = (calculatedTotalPages v - 1) * 15)"
  unfolding v_def
  by (simp add: runNodesView_nonneg pageClampEffect_def Let_def NODES_PER_PAGE_def)

theorem page_index_clamped_witness:
  "0 < calculatedTotalPages (runNodesView exampleNodeEvents)
   \<and> calculatedTotalPages (runNodesView exampleNodeEvents)
        \<le> nv_currentPage (runNodesView exampleNodeEvents)
   \<and> 0 \<le> nv_currentPage (runNodesView exampleNodeEvents)
   \<and> nv_currentPage (pageClampEffect (runNodesView exampleNodeEvents)) = 1
   \<and> nf_offset (nv_filters (pageClampEffect (runNodesView exampleNodeEvents))) = 15"
  using page_index_clamped [of exampleNodeEvents] example_run
  by simp

subsection \<open>Debounced search\<close>

lemma setSearch_quiet:
  assumes "quiet now h"
  shows "setSearch delay now v h = h\<lparr>dh_search := v, dh_pending := Some (now + delay, v)\<rparr>"
  using assms by (auto simp: setSearch_def advanceTo_def quiet_def split: option.splits)

lemma setSearchAll_rapid:
  assumes "calls \<noteq> []" "rapid delay calls" "quiet (fst (hd calls)) h"
  shows "setSearchAll delay calls h =
           h\<lparr>dh_search := snd (last calls),
             dh_pending := Some (fst (last calls) + delay, snd (last calls))\<rparr>"
  using assms
proof (induction calls arbitrary: h)
  case Nil
  then show ?case by simp
next
  case (Cons c calls)
  note IH = Cons.IH and rap = Cons.prems(2)
  let ?h1 = "setSearch delay (fst c) (snd c) h"
  have h1: "?h1 = h\<lparr>dh_search := snd c, dh_pending := Some (fst c + delay, snd c)\<rparr>"
    using Cons.prems(3) by (simp add: setSearch_quiet)
  show ?case
  proof (cases "calls = []")
    case True
    then show ?thesis using h1 by (simp add: setSearchAll_def)
  next
    case False
    then obtain c2 rest where calls: "calls = c2 # rest" by (cases calls) auto
    have q: "quiet (fst (hd calls)) ?h1" using rap by (simp add: calls h1 quiet_def)
    have r: "rapid delay calls" using rap by (simp add: calls)
    have "setSearchAll delay calls ?h1 =
        ?h1\<lparr>dh_search := snd (last calls),
             dh_pending := Some (fst (last calls) + delay, snd (last calls))\<rparr>"
      using IH [OF False r q] .
    then show ?thesis using False h1 by (simp add: setSearchAll_def)
  qed
qed

text \<open>
  C3 (as amended): let \<open>setSearch\<close> be called one or more times, each call less than the
  delay after the one before. Then nothing is committed during the calls and before the
  delay has elapsed after the last call; once it has elapsed there is exactly one commit,
  and the committed \<open>debouncedSearch\<close> is the value of the last call when that value is not
  empty, and \<open>undefined\<close> (the unset state) when it is the empty string.
\<close>

theorem debounce_commits_last_value_once:
  fixes calls :: "(nat \<times> string) list" and delay :: nat and initialValue :: string
  assumes "calls \<noteq> []" and "rapid delay calls"
  defines "h \<equiv> setSearchAll delay calls (useDebouncedSearch initialValue)"
  defines "lastTime \<equiv> fst (last calls)" and "lastValue \<equiv> snd (last calls)"
  shows "dh_search h = lastValue \<and> dh_commits h = [] \<and> dh_debouncedSearch h = None
       \<and> (\<forall>now. now < lastTime + delay \<longrightarrow> dh_commits (advanceTo now h) = [])
       \<and> (\<forall>now. lastTime + delay \<le> now \<longrightarrow>
             dh_commits (advanceTo now h) = [if lastValue = [] then None else Some lastValue]
           \<and> dh_debouncedSearch (advanceTo now h) = (if lastValue = [] then None else Some lastValue)
           \<and> dh_pending (advanceTo now h) = None)"
proof -
  have "quiet (fst (hd calls)) (useDebouncedSearch initialValue)"
    by (simp add: quiet_def useDebouncedSearch_def)
  then have h: "h = (useDebouncedSearch initialValue)\<lparr>dh_search := lastValue,
             dh_pending := Some (lastTime + delay, lastValue)\<rparr>"
    unfolding h_def lastTime_def lastValue_def using setSearchAll_rapid [OF assms(1,2)] by simp
  show ?thesis
    by (simp add: h advanceTo_def useDebouncedSearch_def)
qed

theorem debounce_commits_last_value_once_witness:
  "[(0, ''a''), (100, ''ab''), (250, ''abc'')] \<noteq> [] \<and> rapid 300 [(0, ''a''), (100, ''ab''), (250, ''abc'')]
   \<and> dh_commits (advanceTo 549 (setSearchAll 300 [(0, ''a''), (100, ''ab''), (250, ''abc'')] (useDebouncedSearch []))) = []
   \<and> dh_commits (advanceTo 550 (setSearchAll 300 [(0, ''a''), (100, ''ab''), (250, ''abc'')] (useDebouncedSearch []))) = [Some ''abc'']
   \<and> dh_debouncedSearch (advanceTo 550 (setSearchAll 300 [(0, ''a''), (100, ''ab''), (250, ''abc'')] (useDebouncedSearch []))) = Some ''abc''"
proof -
  have c: "[(0::nat, ''a''), (100, ''ab''), (250, ''abc'')] \<noteq> []"
    and r: "rapid 300 [(0, ''a''), (100, ''ab''), (250, ''abc'')]" by simp_all
  show ?thesis
    using debounce_commits_last_value_once [OF c r, of "[]"] c r by simp
qed

text \<open>
  Typing \<open>a\<close> and clearing the field within the delay commits \<open>undefined\<close>, the value the hook
  starts with, and not the empty string.
\<close>

theorem debounce_empty_string_counterexample:
  "dh_debouncedSearch (advanceTo 400 (setSearchAll 300 [(0, ''a''), (100, [])] (useDebouncedSearch [])))
     = dh_debouncedSearch (useDebouncedSearch [])
   \<and> dh_debouncedSearch (advanceTo 400 (setSearchAll 300 [(0, ''a''), (100, [])] (useDebouncedSearch [])))
     \<noteq> Some []"
  by (simp add: setSearchAll_def setSearch_def advanceTo_def useDebouncedSearch_def)

subsection \<open>Relative-time texts\<close>

lemma ymdParts_length: "length (ymdParts t d) \<le> 3"
  by (simp add: ymdParts_def)

lemma tooltipParts_ymd:
  "tooltipParts t d =
     ymdParts t d
     @ (if 0 < td_hours d \<and> length (ymdParts t d) < 2
        then [unitText t (td_hours d) ''hour'' ''hours''] else [])
     @ (if 0 < td_minutes d \<and> length (ymdParts t d) + (if 0 < td_hours d then 1 else 0) < 2
        then [unitText t (td_minutes d) ''min'' ''mins''] else [])
     @ (if 0 < td_seconds d \<and> ymdParts t d = [] \<and> td_hours d = 0 \<and> td_minutes d = 0
        then [unitText t (td_seconds d) ''second'' ''seconds''] else [])"
  by (simp add: tooltipParts_def ymdParts_def Let_def)

lemma expirySlots_ymd:
  "expirySlots t d =
     (if ymdParts t d \<noteq> [] then ymdParts t d
      else (if 0 < td_hours d then [unitText t (td_hours d) ''hour'' ''hours''] else [])
           @ (if 0 < td_minutes d then [unitText t (td_minutes d) ''min'' ''mins''] else []))"
  by (simp add: expirySlots_def ymdParts_def Let_def)

text \<open>
  C9 (as amended): both formatters list every non-zero unit among years, months and days,
  in this order, so up to three units. The tooltip then adds hours and minutes only while
  fewer than two units are listed, and seconds only when nothing else is listed; the expiry
  text adds hours and minutes only when years, months and days are all zero, and never
  seconds. Each unit is the count, a space and the translation of the singular key when the
  count is one and of the plural key otherwise; the units are joined by a comma and a
  space; the tooltip and the expiry text of a past instant end with a space and the
  translation of \<open>time.ago\<close>, and a past expiry with no unit to show is \<open>time.justNow\<close>.
\<close>

theorem relative_time_parts:
  fixes t :: "string \<Rightarrow> string" and d :: time_diff
  shows "prefix (ymdParts t d) (tooltipParts t d)
       \<and> length (ymdParts t d) \<le> 3
       \<and> length (tooltipParts t d) \<le> max 2 (length (ymdParts t d))
       \<and> (length (ymdParts t d) = 1 \<longrightarrow>
            tooltipParts t d = ymdParts t d
              @ (if 0 < td_hours d then [unitText t (td_hours d) ''hour'' ''hours'']
                 else if 0 < td_minutes d then [unitText t (td_minutes d) ''min'' ''mins''] else []))
       \<and> (ymdParts t d = [] \<longrightarrow>
            tooltipParts t d =
              (if 0 < td_hours d then [unitText t (td_hours d) ''hour'' ''hours''] else [])
              @ (if 0 < td_minutes d then [unitText t (td_minutes d) ''min'' ''mins''] else [])
              @ (if td_hours d = 0 \<and> td_minutes d = 0 \<and> 0 < td_seconds d
                 then [unitText t (td_seconds d) ''second'' ''seconds''] else []))
       \<and> (ymdParts t d \<noteq> [] \<longrightarrow> expirySlots t d = ymdParts t d)
       \<and> (ymdParts t d = [] \<longrightarrow>
            expirySlots t d =
              (if 0 < td_hours d then [unitText t (td_hours d) ''hour'' ''hours''] else [])
              @ (if 0 < td_minutes d then [unitText t (td_minutes d) ''min'' ''mins''] else []))
       \<and> (60 < diffInSeconds \<longrightarrow>
            getTooltipText t True diffInSeconds d =
              (if tooltipParts t d = [] then t ''time.ago''
               else joinWith '', '' (tooltipParts t d) @ '' '' @ t ''time.ago''))
       \<and> di_time (useRelativeExpiryDate t True False d) =
            (if expirySlots t d = [] then t ''time.justNow''
             else joinWith '', '' (expirySlots t d) @ '' '' @ t ''time.ago'')
       \<and> di_time (useRelativeExpiryDate t True True d) = joinWith '', '' (expirySlots t d)
       \<and> unitText t n singular plural =
            natToString n @ '' '' @ t (''time.'' @ (if n = 1 then singular else plural))"
proof -
  have 1: "prefix (ymdParts t d) (tooltipParts t d)"
    by (subst tooltipParts_ymd) simp
  have 2: "length (tooltipParts t d) \<le> max 2 (length (ymdParts t d))"
    by (subst tooltipParts_ymd) (auto simp: ymdParts_def)
  have 3: "length (ymdParts t d) = 1 \<Longrightarrow>
            tooltipParts t d = ymdParts t d
              @ (if 0 < td_hours d then [unitText t (td_hours d) ''hour'' ''hours'']
                 else if 0 < td_minutes d then [unitText t (td_minutes d) ''min'' ''mins''] else [])"
    by (subst tooltipParts_ymd) auto
  have 4: "ymdParts t d = [] \<Longrightarrow>
            tooltipParts t d =
              (if 0 < td_hours d then [unitText t (td_hours d) ''hour'' ''hours''] else [])
              @ (if 0 < td_minutes d then [unitText t (td_minutes d) ''min'' ''mins''] else [])
              @ (if td_hours d = 0 \<and> td_minutes d = 0 \<and> 0 < td_seconds d
                 then [unitText t (td_seconds d) ''second'' ''seconds''] else [])"
    by (subst tooltipParts_ymd) auto
  have 5: "60 < diffInSeconds \<Longrightarrow>
            getTooltipText t True diffInSeconds d =
              (if tooltipParts t d = [] then t ''time.ago''
               else joinWith '', '' (tooltipParts t d) @ '' '' @ t ''time.ago'')"
    by (simp add: getTooltipText_def Let_def)
  have 6: "di_time (useRelativeExpiryDate t True False d) =
            (if expirySlots t d = [] then t ''time.justNow''
             else joinWith '', '' (expirySlots t d) @ '' '' @ t ''time.ago'')"
    by (auto simp: useRelativeExpiryDate_def Let_def expirySlots_ymd split: if_splits)
  have 7: "di_time (useRelativeExpiryDate t True True d) = joinWith '', '' (expirySlots t d)"
    by (simp add: useRelativeExpiryDate_def Let_def)
  have 8: "unitText t n singular plural =
            natToString n @ '' '' @ t (''time.'' @ (if n = 1 then singular else plural))"
    by (simp add: unitText_def)
  show ?thesis
    using 1 2 3 4 5 6 7 8 ymdParts_length [of t d] by (simp add: expirySlots_ymd)
qed

theorem relative_time_parts_witness:
  "length (ymdParts id \<lparr> td_years = 0, td_months = 0, td_days = 1, td_hours = 3, td_minutes = 5, td_seconds = 6 \<rparr>) = 1
   \<and> (60::int) < 97506
   \<and> getTooltipText id True 97506
        \<lparr> td_years = 0, td_months = 0, td_days = 1, td_hours = 3, td_minutes = 5, td_seconds = 6 \<rparr>
      = ''1 time.day, 3 time.hours time.ago''
   \<and> di_time (useRelativeExpiryDate id True False
        \<lparr> td_years = 0, td_months = 0, td_days = 1, td_hours = 3, td_minutes = 5, td_seconds = 6 \<rparr>)
      = ''1 time.day time.ago''"
  using relative_time_parts [of id "\<lparr> td_years = 0, td_months = 0, td_days = 1, td_hours = 3,
      td_minutes = 5, td_seconds = 6 \<rparr>" 97506 1 "''day''" "''days''"]
  by (simp add: ymdParts_def unitText_def natToString.simps digitChar_def)

text \<open>
  Three units are shown when years, months and days are all non-zero, and the tooltip shows
  hours next to a non-zero day.
\<close>

theorem relative_time_two_units_counterexample:
  "tooltipParts id \<lparr> td_years = 1, td_months = 2, td_days = 3, td_hours = 0, td_minutes = 0, td_seconds = 0 \<rparr>
     = [''1 time.year'', ''2 time.months'', ''3 time.days'']
   \<and> getTooltipText id True 37000000
        \<lparr> td_years = 1, td_months = 2, td_days = 3, td_hours = 0, td_minutes = 0, td_seconds = 0 \<rparr>
     = ''1 time.year, 2 time.months, 3 time.days time.ago''
   \<and> di_time (useRelativeExpiryDate id True False
        \<lparr> td_years = 1, td_months = 2, td_days = 3, td_hours = 0, td_minutes = 0, td_seconds = 0 \<rparr>)
     = ''1 time.year, 2 time.months, 3 time.days time.ago''
   \<and> getTooltipText id True 97200
        \<lparr> td_years = 0, td_months = 0, td_days = 1, td_hours = 3, td_minutes = 0, td_seconds = 0 \<rparr>
     = ''1 time.day, 3 time.hours time.ago''"
  by (simp add: tooltipParts_def getTooltipText_def useRelativeExpiryDate_def expirySlots_def
      Let_def unitText_def natToString.simps digitChar_def)

end
